theory Spec2Isabelle
  imports Main "HOL-Library.Sublist"
begin

section \<open>Descending pagination (\<open>descPagination\<close> in \<open>client/src/utils.js\<close>)\<close>

subsection \<open>Integral JavaScript numbers\<close>

text \<open>
  The arguments of \<^verbatim>\<open>descPagination\<close> are JavaScript numbers, that is IEEE 754 doubles,
  and the specification has them integral. An integral double is modelled by the integer
  it denotes, \<^verbatim>\<open>-0\<close> and \<^verbatim>\<open>0\<close> being the same number, as they are for \<^verbatim>\<open>===\<close>, \<^verbatim>\<open><\<close>
  and \<^verbatim>\<open>>\<close>. Every integer of magnitude up to \<open>2\<^sup>5\<^sup>3\<close> is a double; a larger one is a
  double only if it fits 53 significant bits. The operators \<^verbatim>\<open>-\<close> and \<^verbatim>\<open>*\<close> return the
  exact result rounded to the nearest double, a tie going to the double whose last
  significant bit is even.

  \<open>ulp_exponent n\<close> is the number of low bits a magnitude \<open>n\<close> loses when it is cut to 53
  significant bits, and \<open>round_magnitude n\<close> rounds \<open>n\<close> to that precision, ties to even.
  The exponent has no upper limit here: \<^verbatim>\<open>Infinity\<close>, which the source produces once a
  magnitude reaches \<open>2\<^sup>1\<^sup>0\<^sup>2\<^sup>4\<close>, is not modelled.
\<close>

fun ulp_exponent :: "nat \<Rightarrow> nat" where
  "ulp_exponent n = (if n < 2 ^ 53 then 0 else Suc (ulp_exponent (n div 2)))"

declare ulp_exponent.simps [simp del]

definition round_magnitude :: "nat \<Rightarrow> nat" where
  "round_magnitude n =
     (let e = ulp_exponent n; q = n div 2 ^ e; r = n mod 2 ^ e
      in if 2 ^ e < 2 * r \<or> (2 * r = 2 ^ e \<and> odd q) then (q + 1) * 2 ^ e else q * 2 ^ e)"

definition to_double :: "int \<Rightarrow> int" where
  "to_double x = (if x < 0 then - int (round_magnitude (nat (- x)))
                  else int (round_magnitude (nat x)))"

text \<open>The operators \<^verbatim>\<open>a - b\<close> and \<^verbatim>\<open>a * b\<close> on integral doubles.\<close>

definition Number_minus :: "int \<Rightarrow> int \<Rightarrow> int" where
  "Number_minus a b = to_double (a - b)"

definition Number_times :: "int \<Rightarrow> int \<Rightarrow> int" where
  "Number_times a b = to_double (a * b)"

text \<open>
  \<^verbatim>\<open>Number.isSafeInteger\<close> on an integral number: its magnitude is at most
  \<^verbatim>\<open>Number.MAX_SAFE_INTEGER\<close>, which is \<open>2\<^sup>5\<^sup>3 - 1\<close>.
\<close>

definition isSafeInteger :: "int \<Rightarrow> bool" where
  "isSafeInteger x \<longleftrightarrow> \<bar>x\<bar> \<le> 2 ^ 53 - 1"

subsection \<open>The page window\<close>

text \<open>
  The object literal \<^verbatim>\<open>{ maxId, minId, hasPrev, hasNext }\<close> returned by
  \<^verbatim>\<open>descPagination\<close>.
\<close>

record PageWindow =
  maxId :: int
  minId :: int
  hasPrev :: bool
  hasNext :: bool

text \<open>
  \<^verbatim>\<open>
  export function descPagination(total, page = 1, perPage = 10, zeroBased = true) {
    total = zeroBased ? (total - 1) : total;
    const maxId = total - ((page - 1) * perPage);
    const min = zeroBased ? -1 : 0;
    const minId = ((maxId - perPage) < min) ? min : (maxId - perPage);
    const hasPrev = maxId < total;
    const hasNext = minId > min;
    return { maxId, minId, hasPrev, hasNext };
  }
  \<close>
  The parameter \<^verbatim>\<open>total\<close> is \<open>total_arg\<close> on entry and \<open>total'\<close> after its reassignment
  (\<open>total\<close> is a constant of HOL); the locals carry a prime, their names being those of
  the record's fields. Each \<^verbatim>\<open>-\<close> and \<^verbatim>\<open>*\<close> of the source is one rounded operation.
\<close>

definition descPagination :: "int \<Rightarrow> int \<Rightarrow> int \<Rightarrow> bool \<Rightarrow> PageWindow" where
  "descPagination total_arg page perPage zeroBased =
     (let total' = (if zeroBased then Number_minus total_arg 1 else total_arg);
          maxId' = Number_minus total' (Number_times (Number_minus page 1) perPage);
          min' = (if zeroBased then - 1 else 0);
          minId' = (if Number_minus maxId' perPage < min' then min'
                    else Number_minus maxId' perPage);
          hasPrev' = (maxId' < total');
          hasNext' = (minId' > min')
      in \<lparr> maxId = maxId', minId = minId', hasPrev = hasPrev', hasNext = hasNext' \<rparr>)"

text \<open>
  The two quantities the specification names, in exact integer arithmetic: the highest
  valid index and the sentinel.
\<close>

definition effectiveTotal :: "int \<Rightarrow> bool \<Rightarrow> int" where
  "effectiveTotal total_arg zeroBased = (if zeroBased then total_arg - 1 else total_arg)"

definition floor_sentinel :: "bool \<Rightarrow> int" where
  "floor_sentinel zeroBased = (if zeroBased then - 1 else 0)"


section \<open>Error classification (\<open>ERRORS\<close>, \<open>ErrorHandler\<close>, \<open>toErrorHandler\<close>)\<close>

subsection \<open>The JavaScript values the constructor can be handed\<close>

text \<open>
  \<^verbatim>\<open>handleError\<close> passes on whatever was thrown or rejected, so the argument of the
  constructor is an arbitrary JavaScript value. The model covers the primitives and two
  kinds of object:
  \<^item> \<open>JError m\<close>, an instance of \<^verbatim>\<open>Error\<close> whose \<^verbatim>\<open>message\<close> is the string \<open>m\<close> (what
    \<^verbatim>\<open>new Error(...)\<close> and the wallet and contract libraries produce);
  \<^item> \<open>JObject p\<close>, a plain object with the inherited \<^verbatim>\<open>toString\<close>, whose \<^verbatim>\<open>message\<close>
    property is \<open>p\<close> (\<open>None\<close> when it has none).
  Numbers are the integral ones, and \<open>Number_toString\<close> prints all their digits. That is
  what JavaScript prints for a safe integer (magnitude below \<open>2\<^sup>5\<^sup>3\<close>); above, JavaScript
  prints the shortest digits that read back as the same double, and an exponent from
  \<open>10\<^sup>2\<^sup>1\<close> on, which the model does not follow: there the message kept in
  \<^verbatim>\<open>this.error\<close> for a number differs in its digits from the one JavaScript builds.
  Strings are lists of characters. Arrays, functions, objects with accessor properties or
  a \<^verbatim>\<open>toString\<close> of their own, and errors whose \<^verbatim>\<open>message\<close> was overwritten with a
  non-string are outside the model.
\<close>

datatype js_value =
    JUndefined
  | JNull
  | JBoolean bool
  | JNumber int
  | JString string
  | JSymbol
  | JError string
  | JObject "js_value option"

text \<open>The one exception the constructor can raise.\<close>

datatype js_exception = TypeError

text \<open>\<^verbatim>\<open>typeof v\<close>; in particular \<^verbatim>\<open>typeof null === 'object'\<close>.\<close>

fun typeof :: "js_value \<Rightarrow> string" where
  "typeof JUndefined = ''undefined''"
| "typeof JNull = ''object''"
| "typeof (JBoolean b) = ''boolean''"
| "typeof (JNumber n) = ''number''"
| "typeof (JString s) = ''string''"
| "typeof JSymbol = ''symbol''"
| "typeof (JError m) = ''object''"
| "typeof (JObject p) = ''object''"

text \<open>\<^verbatim>\<open>v instanceof Error\<close>.\<close>

fun instanceof_Error :: "js_value \<Rightarrow> bool" where
  "instanceof_Error (JError m) = True"
| "instanceof_Error v = False"

text \<open>
  The property read \<^verbatim>\<open>v.message\<close>: a \<^verbatim>\<open>TypeError\<close> on \<^verbatim>\<open>null\<close> and \<^verbatim>\<open>undefined\<close>,
  \<^verbatim>\<open>undefined\<close> on the other primitives and on an object without the property.
\<close>

fun prop_message :: "js_value \<Rightarrow> js_exception + js_value" where
  "prop_message JUndefined = Inl TypeError"
| "prop_message JNull = Inl TypeError"
| "prop_message (JError m) = Inr (JString m)"
| "prop_message (JObject None) = Inr JUndefined"
| "prop_message (JObject (Some v)) = Inr v"
| "prop_message v = Inr JUndefined"

text \<open>Truthiness, as the condition of \<^verbatim>\<open>&&\<close> and \<^verbatim>\<open>?:\<close> reads a value.\<close>

fun ToBoolean :: "js_value \<Rightarrow> bool" where
  "ToBoolean JUndefined = False"
| "ToBoolean JNull = False"
| "ToBoolean (JBoolean b) = b"
| "ToBoolean (JNumber n) = (n \<noteq> 0)"
| "ToBoolean (JString s) = (s \<noteq> [])"
| "ToBoolean JSymbol = True"
| "ToBoolean (JError m) = True"
| "ToBoolean (JObject p) = True"

text \<open>Decimal digits of a natural number, most significant first.\<close>

fun digits :: "nat \<Rightarrow> string" where
  "digits n = (if n < 10 then [''0123456789'' ! n]
               else digits (n div 10) @ [''0123456789'' ! (n mod 10)])"

declare digits.simps [simp del]

definition Number_toString :: "int \<Rightarrow> string" where
  "Number_toString n = (if n < 0 then CHR ''-'' # digits (nat (- n)) else digits (nat n))"

text \<open>
  The coercion to a string that \<^verbatim>\<open>new Error(v)\<close> applies to its argument. A symbol has
  none (\<^verbatim>\<open>TypeError\<close>); an \<^verbatim>\<open>Error\<close> prints through \<^verbatim>\<open>Error.prototype.toString\<close> and a
  plain object through \<^verbatim>\<open>Object.prototype.toString\<close>.
\<close>

fun ToString :: "js_value \<Rightarrow> js_exception + string" where
  "ToString JUndefined = Inr ''undefined''"
| "ToString JNull = Inr ''null''"
| "ToString (JBoolean b) = Inr (if b then ''true'' else ''false'')"
| "ToString (JNumber n) = Inr (Number_toString n)"
| "ToString (JString s) = Inr s"
| "ToString JSymbol = Inl TypeError"
| "ToString (JError m) = Inr (if m = [] then ''Error'' else ''Error: '' @ m)"
| "ToString (JObject p) = Inr ''[object Object]''"

text \<open>
  \<^verbatim>\<open>new Error(v)\<close>: its \<^verbatim>\<open>message\<close> is the empty string inherited from the prototype
  when \<open>v\<close> is \<^verbatim>\<open>undefined\<close>, the coercion of \<open>v\<close> otherwise.
\<close>

definition new_Error :: "js_value \<Rightarrow> js_exception + js_value" where
  "new_Error v =
     (if v = JUndefined then Inr (JError [])
      else case ToString v of Inl e \<Rightarrow> Inl e | Inr s \<Rightarrow> Inr (JError s))"

text \<open>
  \<^verbatim>\<open>String.prototype.includes\<close> with one argument: \<open>String_includes s p\<close> is \<^verbatim>\<open>s.includes(p)\<close>,
  a search for \<open>p\<close> at every position of \<open>s\<close>.
\<close>

fun String_includes :: "string \<Rightarrow> string \<Rightarrow> bool" where
  "String_includes [] p = (p = [])"
| "String_includes (c # cs) p = (prefix p (c # cs) \<or> String_includes cs p)"

subsection \<open>The table and the class\<close>

text \<open>The values of \<^verbatim>\<open>ERRORS\<close>.\<close>

record ErrorRecord =
  displayError :: bool
  log :: bool
  message :: string

text \<open>
  \<^verbatim>\<open>
  const ERRORS = {
    'You have no Metamask installed': {
      displayError: true, log: false, message: 'You have no Metamask installed.' },
    'You are connected to the wrong network': {
      displayError: true, log: false, message: 'You are connected to the wrong network.' },
    'User rejected the request': {
      displayError: true, log: false, message: 'You rejected the connect request.' },
    'User denied transaction signature': {
      displayError: false, log: false,
      message: 'MetaMask Tx Signature: User denied transaction signature.' },
    'Loketh: Organizer can not buy their own event': {
      displayError: true, log: false,
      message: 'You can not buy a ticket from your own event.' },
    'Loketh: Participant already bought the ticket': {
      displayError: true, log: false, message: 'You are already buy this ticket.' }
  };
  \<close>
  An association list in the order of the literal, which is the order in which
  \<^verbatim>\<open>Object.keys\<close> lists these keys (none of them is an array index).
\<close>

definition ERRORS :: "(string \<times> ErrorRecord) list" where
  "ERRORS =
    [(''You have no Metamask installed'',
        \<lparr> displayError = True, log = False, message = ''You have no Metamask installed.'' \<rparr>),
     (''You are connected to the wrong network'',
        \<lparr> displayError = True, log = False,
          message = ''You are connected to the wrong network.'' \<rparr>),
     (''User rejected the request'',
        \<lparr> displayError = True, log = False, message = ''You rejected the connect request.'' \<rparr>),
     (''User denied transaction signature'',
        \<lparr> displayError = False, log = False,
          message = ''MetaMask Tx Signature: User denied transaction signature.'' \<rparr>),
     (''Loketh: Organizer can not buy their own event'',
        \<lparr> displayError = True, log = False,
          message = ''You can not buy a ticket from your own event.'' \<rparr>),
     (''Loketh: Participant already bought the ticket'',
        \<lparr> displayError = True, log = False, message = ''You are already buy this ticket.'' \<rparr>)]"

definition Object_keys :: "(string \<times> 'v) list \<Rightarrow> string list" where
  "Object_keys obj = map fst obj"

text \<open>
  An instance of \<^verbatim>\<open>ErrorHandler\<close>: \<open>error\<close> is \<^verbatim>\<open>this.error\<close> and \<open>error'\<close> is
  \<^verbatim>\<open>this._error\<close>, with \<open>None\<close> for \<^verbatim>\<open>null\<close>.
\<close>

record ErrorHandler =
  error :: js_value
  error' :: "ErrorRecord option"

text \<open>
  The first statement of the constructor, which sets \<^verbatim>\<open>this.error\<close>:
  \<^verbatim>\<open>
    if (error instanceof Error) {
      this.error = error;
    } else if ((typeof error === 'object') && error.message) {
      this.error = new Error(error.message);
    } else {
      this.error = new Error(error);
    }
  \<close>
  The result is the value assigned to \<^verbatim>\<open>this.error\<close>, or the exception raised on the
  way.
\<close>

definition this_error :: "js_value \<Rightarrow> js_exception + js_value" where
  "this_error err =
     (if instanceof_Error err then Inr err
      else if typeof err = ''object'' then
        (case prop_message err of
           Inl e \<Rightarrow> Inl e
         | Inr m \<Rightarrow> if ToBoolean m then new_Error m else new_Error err)
      else new_Error err)"

text \<open>
  The rest of the constructor:
  \<^verbatim>\<open>
    const key = Object.keys(ERRORS).find(err => {
      return this.error.message.includes(err);
    })
    this._error = key ? ERRORS[key] : null;
  \<close>
  The callback reads \<^verbatim>\<open>this.error.message\<close> and calls its \<^verbatim>\<open>includes\<close>, which only a
  string has. \<^verbatim>\<open>find\<close> yields \<^verbatim>\<open>undefined\<close> (\<open>None\<close>) when no key passes; a key is
  truthy when it is not the empty string.
\<close>

definition find_key :: "js_value \<Rightarrow> js_exception + string option" where
  "find_key this_error_value =
     (case prop_message this_error_value of
        Inl e \<Rightarrow> Inl e
      | Inr (JString msg) \<Rightarrow> Inr (find (\<lambda>err. String_includes msg err) (Object_keys ERRORS))
      | Inr _ \<Rightarrow> Inl TypeError)"

text \<open>\<^verbatim>\<open>key ? ERRORS[key] : null\<close>\<close>

definition select_error :: "string option \<Rightarrow> ErrorRecord option" where
  "select_error key =
     (case key of
        None \<Rightarrow> None
      | Some k \<Rightarrow> if k \<noteq> [] then map_of ERRORS k else None)"

definition ErrorHandler_constructor :: "js_value \<Rightarrow> js_exception + ErrorHandler" where
  "ErrorHandler_constructor err =
     (case this_error err of
        Inl e \<Rightarrow> Inl e
      | Inr this_error_value \<Rightarrow>
          (case find_key this_error_value of
             Inl e \<Rightarrow> Inl e
           | Inr key \<Rightarrow> Inr \<lparr> error = this_error_value, error' = select_error key \<rparr>))"

text \<open>
  The getters:
  \<^verbatim>\<open>
    get displayError() { return this._error ? this._error.displayError : true; }
    get log() { return this._error ? this._error.log : true; }
    get message() { return this._error ? this._error.message : 'Something went wrong.'; }
  \<close>
\<close>

definition get_displayError :: "ErrorHandler \<Rightarrow> bool" where
  "get_displayError this = (case error' this of Some e \<Rightarrow> displayError e | None \<Rightarrow> True)"

definition get_log :: "ErrorHandler \<Rightarrow> bool" where
  "get_log this = (case error' this of Some e \<Rightarrow> log e | None \<Rightarrow> True)"

definition get_message :: "ErrorHandler \<Rightarrow> string" where
  "get_message this =
     (case error' this of Some e \<Rightarrow> message e | None \<Rightarrow> ''Something went wrong.'')"

text \<open>\<^verbatim>\<open>export function toErrorHandler(error) { return new ErrorHandler(error); }\<close>\<close>

definition toErrorHandler :: "js_value \<Rightarrow> js_exception + ErrorHandler" where
  "toErrorHandler err = ErrorHandler_constructor err"

subsection \<open>The specification's side\<close>

text \<open>
  The specification's words, to compare the code with: the normalized message, which is
  the message of the error-like wrapper the first step produces; a pattern matches when it
  "appears anywhere inside the normalized message"; the fixed signature table with its
  \<open>(displayError, log, message)\<close> triples, in declared order; the default record; and the
  triple a caller reads off a handler.
\<close>

definition normalized_message :: "js_value \<Rightarrow> string option" where
  "normalized_message v =
     (case this_error v of Inr (JError msg) \<Rightarrow> Some msg | _ \<Rightarrow> None)"

definition occurs_in :: "string \<Rightarrow> string \<Rightarrow> bool" where
  "occurs_in pat msg \<longleftrightarrow> (\<exists>before after. msg = before @ pat @ after)"

definition signature_table :: "(string \<times> bool \<times> bool \<times> string) list" where
  "signature_table =
    [(''You have no Metamask installed'', True, False, ''You have no Metamask installed.''),
     (''You are connected to the wrong network'', True, False,
        ''You are connected to the wrong network.''),
     (''User rejected the request'', True, False, ''You rejected the connect request.''),
     (''User denied transaction signature'', False, False,
        ''MetaMask Tx Signature: User denied transaction signature.''),
     (''Loketh: Organizer can not buy their own event'', True, False,
        ''You can not buy a ticket from your own event.''),
     (''Loketh: Participant already bought the ticket'', True, False,
        ''You are already buy this ticket.'')]"

definition default_record :: "bool \<times> bool \<times> string" where
  "default_record = (True, True, ''Something went wrong.'')"

definition triple :: "ErrorHandler \<Rightarrow> bool \<times> bool \<times> string" where
  "triple h = (get_displayError h, get_log h, get_message h)"


section \<open>Properties of the page window\<close>

subsection \<open>Rounding to a double\<close>

text \<open>
  A magnitude below \<open>2\<^sup>5\<^sup>3\<close> is its own rounding; one of at least \<open>2\<^sup>5\<^sup>3\<close> stays at least
  \<open>2\<^sup>5\<^sup>3\<close>. So an operation whose exact result is a safe integer is exact, and comparing a
  rounded value with a safe integer is comparing the exact value with it.
\<close>

lemma ulp_exponent_small: "n < 2 ^ 53 \<Longrightarrow> ulp_exponent n = 0"
  by (simp add: ulp_exponent.simps [of n])

lemma round_magnitude_small: "n < 2 ^ 53 \<Longrightarrow> round_magnitude n = n"
  by (simp add: round_magnitude_def ulp_exponent_small)

lemma ulp_exponent_bound: "2 ^ 53 \<le> n \<Longrightarrow> 2 ^ ulp_exponent n * 2 ^ 52 \<le> n \<and> 0 < ulp_exponent n"
proof (induction n rule: ulp_exponent.induct)
  case (1 n)
  show ?case
  proof (cases "n div 2 < 2 ^ 53")
    case True
    then have "ulp_exponent n = Suc 0"
      using "1.prems" by (simp add: ulp_exponent.simps [of n] ulp_exponent_small)
    then show ?thesis using "1.prems" by simp
  next
    case False
    then have "2 ^ ulp_exponent (n div 2) * 2 ^ 52 \<le> n div 2"
      using "1.IH" "1.prems" by simp
    moreover have "ulp_exponent n = Suc (ulp_exponent (n div 2))"
      using "1.prems" by (simp add: ulp_exponent.simps [of n])
    ultimately show ?thesis by simp
  qed
qed

lemma round_magnitude_large:
  assumes "2 ^ 53 \<le> n"
  shows "2 ^ 53 \<le> round_magnitude n"
proof -
  define e where "e = ulp_exponent n"
  define q where "q = n div 2 ^ e"
  from ulp_exponent_bound [OF assms] have b: "2 ^ e * 2 ^ 52 \<le> n" and e: "0 < e"
    by (simp_all add: e_def)
  have "(2 ^ e * 2 ^ 52) div 2 ^ e \<le> n div 2 ^ e" using b by (rule div_le_mono)
  then have q52: "2 ^ 52 \<le> q" by (simp add: q_def)
  have "(2::nat) ^ 1 \<le> 2 ^ e" using e by (intro power_increasing) simp_all
  then have e2: "(2::nat) \<le> 2 ^ e" by simp
  have "2 ^ 52 * (2::nat) \<le> q * 2 ^ e" using q52 e2 by (rule mult_le_mono)
  then have q: "2 ^ 53 \<le> q * 2 ^ e" by simp
  have "q * 2 ^ e \<le> round_magnitude n"
    by (simp add: round_magnitude_def Let_def q_def e_def)
  with q show ?thesis by (rule order_trans)
qed

lemma to_double_exact: "\<bar>x\<bar> \<le> 2 ^ 53 - 1 \<Longrightarrow> to_double x = x"
  by (simp add: to_double_def round_magnitude_small)

lemma to_double_large_neg:
  assumes "x \<le> - (2 ^ 53)"
  shows "to_double x \<le> - (2 ^ 53)"
proof -
  from assms have "2 ^ 53 \<le> nat (- x)" by simp
  then have "2 ^ 53 \<le> round_magnitude (nat (- x))" by (rule round_magnitude_large)
  then have "(2::int) ^ 53 \<le> int (round_magnitude (nat (- x)))"
    by (metis of_nat_le_iff of_nat_numeral of_nat_power)
  then show ?thesis using assms by (simp add: to_double_def)
qed

lemma to_double_large_pos:
  assumes "2 ^ 53 \<le> x"
  shows "2 ^ 53 \<le> to_double x"
proof -
  from assms have "2 ^ 53 \<le> nat x" by simp
  then have "2 ^ 53 \<le> round_magnitude (nat x)" by (rule round_magnitude_large)
  then have "(2::int) ^ 53 \<le> int (round_magnitude (nat x))"
    by (metis of_nat_le_iff of_nat_numeral of_nat_power)
  then show ?thesis using assms by (simp add: to_double_def)
qed

lemma to_double_less_iff:
  assumes "\<bar>c\<bar> \<le> 2 ^ 53 - 1"
  shows "to_double x < c \<longleftrightarrow> x < c"
proof -
  consider "\<bar>x\<bar> \<le> 2 ^ 53 - 1" | "x \<le> - (2 ^ 53)" | "2 ^ 53 \<le> x" by fastforce
  then show ?thesis
  proof cases
    case 1
    then show ?thesis by (simp add: to_double_exact)
  next
    case 2
    from to_double_large_neg [OF 2] assms have "to_double x < c" by simp
    moreover from 2 assms have "x < c" by simp
    ultimately show ?thesis by simp
  next
    case 3
    from to_double_large_pos [OF 3] assms have "\<not> to_double x < c" by simp
    moreover from 3 assms have "\<not> x < c" by simp
    ultimately show ?thesis by simp
  qed
qed

lemma to_double_exact_53: "\<bar>x\<bar> \<le> 2 ^ 53 \<Longrightarrow> to_double x = x"
proof -
  assume a: "\<bar>x\<bar> \<le> 2 ^ 53"
  have p: "round_magnitude (2 ^ 53) = 2 ^ 53"
    by (simp add: round_magnitude_def ulp_exponent.simps)
  consider "\<bar>x\<bar> \<le> 2 ^ 53 - 1" | "x = 2 ^ 53" | "x = - (2 ^ 53)" using a by fastforce
  then show ?thesis
  proof cases
    case 1 then show ?thesis by (rule to_double_exact)
  next
    case 2 then show ?thesis using p by (simp add: to_double_def)
  next
    case 3 then show ?thesis using p by (simp add: to_double_def)
  qed
qed

lemma Number_exact:
  "isSafeInteger (a - b) \<Longrightarrow> Number_minus a b = a - b"
  "isSafeInteger (a * b) \<Longrightarrow> Number_times a b = a * b"
  by (simp_all add: Number_minus_def Number_times_def isSafeInteger_def to_double_exact)

text \<open>
  The \<open>maxId\<close> of a call whose values up to \<open>maxId\<close> are all safe integers.
\<close>

lemma maxId_exact:
  assumes "isSafeInteger (effectiveTotal total_arg zeroBased)"
    and "isSafeInteger (page - 1)"
    and "isSafeInteger ((page - 1) * perPage)"
    and "isSafeInteger (effectiveTotal total_arg zeroBased - (page - 1) * perPage)"
  shows "maxId (descPagination total_arg page perPage zeroBased)
         = effectiveTotal total_arg zeroBased - (page - 1) * perPage"
proof -
  let ?eff = "effectiveTotal total_arg zeroBased"
  have t: "(if zeroBased then Number_minus total_arg 1 else total_arg) = ?eff"
    using assms(1) by (cases zeroBased) (simp_all add: effectiveTotal_def Number_exact)
  have p: "Number_minus page 1 = page - 1" using assms(2) by (rule Number_exact)
  have m: "Number_times (page - 1) perPage = (page - 1) * perPage"
    using assms(3) by (rule Number_exact)
  have x: "Number_minus ?eff ((page - 1) * perPage) = ?eff - (page - 1) * perPage"
    using assms(4) by (rule Number_exact)
  show ?thesis
    unfolding descPagination_def Let_def t p m x by simp
qed

subsection \<open>The window\<close>

text \<open>
  C1, as stated: for all integers \<open>total\<close>, \<open>page\<close>, \<open>perPage\<close> the result is the window
  with \<open>maxId = effectiveTotal - (page - 1) * perPage\<close> and so on, in exact arithmetic.
  This fails where a double cannot hold an intermediate value: for
  \<open>total = 2\<^sup>5\<^sup>3 + 2\<close>, \<open>page = 1\<close>, \<open>perPage = 1\<close>, zero-based, \<^verbatim>\<open>total - 1\<close> is
  \<open>2\<^sup>5\<^sup>3 + 1\<close>, which rounds to \<open>2\<^sup>5\<^sup>3\<close>, and the window has \<open>maxId = 2\<^sup>5\<^sup>3\<close> where the
  formula has \<open>2\<^sup>5\<^sup>3 + 1\<close>.
\<close>

theorem descPagination_window_counterexample:
  "descPagination 9007199254740994 1 1 True
     = \<lparr> maxId = 9007199254740992, minId = 9007199254740991,
         hasPrev = False, hasNext = True \<rparr>
   \<and> effectiveTotal 9007199254740994 True - (1 - 1) * 1 = 9007199254740993
   \<and> descPagination 9007199254740994 1 1 True \<noteq>
     \<lparr> maxId = effectiveTotal 9007199254740994 True - (1 - 1) * 1,
       minId = max (effectiveTotal 9007199254740994 True - (1 - 1) * 1 - 1)
                   (floor_sentinel True),
       hasPrev = (effectiveTotal 9007199254740994 True - (1 - 1) * 1
                    < effectiveTotal 9007199254740994 True),
       hasNext = (max (effectiveTotal 9007199254740994 True - (1 - 1) * 1 - 1)
                      (floor_sentinel True) > floor_sentinel True) \<rparr>"
  by (simp add: descPagination_def Let_def Number_minus_def Number_times_def to_double_def
        round_magnitude_def ulp_exponent.simps effectiveTotal_def floor_sentinel_def)

text \<open>
  C1, amended: for all integers \<open>total\<close>, \<open>page\<close>, \<open>perPage\<close> and both values of
  \<open>zeroBased\<close> for which the values computed on the way (\<open>effectiveTotal\<close>, \<open>page - 1\<close>,
  \<open>(page - 1) * perPage\<close>, \<open>maxId\<close> and \<open>maxId - perPage\<close>) are safe integers, the result is
  exactly the window with \<open>maxId = effectiveTotal - (page - 1) * perPage\<close>,
  \<open>minId = max (maxId - perPage) floor\<close>, \<open>hasPrev = (maxId < effectiveTotal)\<close> and
  \<open>hasNext = (minId > floor)\<close>, where \<open>effectiveTotal\<close> is \<open>total - 1\<close> when zero-based and
  \<open>total\<close> otherwise, and \<open>floor\<close> is \<open>-1\<close> when zero-based and \<open>0\<close> otherwise.
\<close>

theorem descPagination_window:
  assumes "isSafeInteger (effectiveTotal total_arg zeroBased)"
    and "isSafeInteger (page - 1)"
    and "isSafeInteger ((page - 1) * perPage)"
    and "isSafeInteger (effectiveTotal total_arg zeroBased - (page - 1) * perPage)"
    and "isSafeInteger (effectiveTotal total_arg zeroBased - (page - 1) * perPage - perPage)"
  shows "descPagination total_arg page perPage zeroBased =
     \<lparr> maxId = effectiveTotal total_arg zeroBased - (page - 1) * perPage,
       minId = max (effectiveTotal total_arg zeroBased - (page - 1) * perPage - perPage)
                   (floor_sentinel zeroBased),
       hasPrev = (effectiveTotal total_arg zeroBased - (page - 1) * perPage
                    < effectiveTotal total_arg zeroBased),
       hasNext = (max (effectiveTotal total_arg zeroBased - (page - 1) * perPage - perPage)
                      (floor_sentinel zeroBased) > floor_sentinel zeroBased) \<rparr>"
proof -
  let ?eff = "effectiveTotal total_arg zeroBased"
  have t: "(if zeroBased then Number_minus total_arg 1 else total_arg) = ?eff"
    using assms(1) by (cases zeroBased) (simp_all add: effectiveTotal_def Number_exact)
  have p: "Number_minus page 1 = page - 1" using assms(2) by (rule Number_exact)
  have m: "Number_times (page - 1) perPage = (page - 1) * perPage"
    using assms(3) by (rule Number_exact)
  have x: "Number_minus ?eff ((page - 1) * perPage) = ?eff - (page - 1) * perPage"
    using assms(4) by (rule Number_exact)
  have d: "Number_minus (?eff - (page - 1) * perPage) perPage
           = ?eff - (page - 1) * perPage - perPage"
    using assms(5) by (rule Number_exact)
  show ?thesis
    unfolding descPagination_def Let_def t p m x d
    by (simp add: floor_sentinel_def max_def)
qed

theorem descPagination_window_witness:
  "isSafeInteger (effectiveTotal 25 True) \<and> isSafeInteger (1 - 1)
     \<and> isSafeInteger ((1 - 1) * 10) \<and> isSafeInteger (effectiveTotal 25 True - (1 - 1) * 10)
     \<and> isSafeInteger (effectiveTotal 25 True - (1 - 1) * 10 - 10)
     \<and> descPagination 25 1 10 True
         = \<lparr> maxId = 24, minId = 14, hasPrev = False, hasNext = True \<rparr>"
  using descPagination_window [of 25 True 1 10]
  by (simp add: isSafeInteger_def effectiveTotal_def floor_sentinel_def)

text \<open>
  C4, as stated: for \<open>total \<ge> 0\<close>, \<open>page \<ge> 1\<close>, \<open>perPage \<ge> 1\<close> the window has
  \<open>maxId \<ge> minId\<close>. This fails once the page lies beyond the collection: for an empty
  zero-based collection, page 2 of size 10 has \<open>maxId = -11\<close> and \<open>minId = -1\<close>.
\<close>

theorem descPagination_maxId_ge_minId_counterexample:
  "(0::int) \<le> 0 \<and> (1::int) \<le> 2 \<and> (1::int) \<le> 10
     \<and> descPagination 0 2 10 True
         = \<lparr> maxId = - 11, minId = - 1, hasPrev = True, hasNext = False \<rparr>
     \<and> \<not> (maxId (descPagination 0 2 10 True) \<ge> minId (descPagination 0 2 10 True))"
  by (simp add: descPagination_def Let_def Number_minus_def Number_times_def to_double_exact)

text \<open>
  C4, amended: for \<open>total \<ge> 0\<close>, \<open>page \<ge> 1\<close>, \<open>perPage \<ge> 1\<close> with \<open>total\<close>, \<open>perPage\<close> and
  \<open>(page - 1) * perPage\<close> safe integers, the window has \<open>maxId \<ge> minId\<close> exactly when
  \<open>(page - 1) * perPage \<le> total\<close>; at equality the window is empty, \<open>maxId\<close> and \<open>minId\<close>
  both being the sentinel floor.
\<close>

theorem descPagination_maxId_ge_minId_iff:
  assumes "0 \<le> total_arg" and "1 \<le> page" and "1 \<le> perPage"
    and "isSafeInteger total_arg" and "isSafeInteger perPage"
    and "isSafeInteger ((page - 1) * perPage)"
  shows "((maxId (descPagination total_arg page perPage zeroBased)
             \<ge> minId (descPagination total_arg page perPage zeroBased))
          \<longleftrightarrow> (page - 1) * perPage \<le> total_arg)
         \<and> ((page - 1) * perPage = total_arg \<longrightarrow>
              maxId (descPagination total_arg page perPage zeroBased) = floor_sentinel zeroBased
              \<and> minId (descPagination total_arg page perPage zeroBased)
                  = floor_sentinel zeroBased)"
proof -
  define eff where "eff = effectiveTotal total_arg zeroBased"
  define prod where "prod = (page - 1) * perPage"
  define fl where "fl = floor_sentinel zeroBased"
  define m where "m = eff - prod"
  have bounds: "total_arg \<le> 2 ^ 53 - 1" "perPage \<le> 2 ^ 53 - 1" "prod \<le> 2 ^ 53 - 1"
    using assms(4-6) by (simp_all add: isSafeInteger_def prod_def)
  have prod0: "0 \<le> prod" using assms(2,3) by (simp add: prod_def)
  have "page - 1 \<le> (page - 1) * perPage"
    using assms(2,3) by (simp add: mult_le_cancel_left1)
  then have page1: "0 \<le> page - 1" "page - 1 \<le> 2 ^ 53 - 1"
    using assms(2) bounds(3) by (simp_all add: prod_def)
  have t: "(if zeroBased then Number_minus total_arg 1 else total_arg) = eff"
    using assms(1) bounds(1)
    by (cases zeroBased)
       (simp_all add: eff_def effectiveTotal_def Number_minus_def to_double_exact)
  have p: "Number_minus page 1 = page - 1"
    using page1 by (simp add: Number_minus_def to_double_exact)
  have pr: "Number_times (page - 1) perPage = prod"
    using prod0 bounds(3) by (simp add: Number_times_def to_double_exact prod_def)
  have effb: "- 1 \<le> eff" "eff \<le> 2 ^ 53 - 1" "eff - fl = total_arg"
    using assms(1) bounds(1) by (simp_all add: eff_def fl_def effectiveTotal_def floor_sentinel_def)
  have mx: "Number_minus eff prod = m"
    using effb prod0 bounds(3) by (simp add: Number_minus_def m_def to_double_exact_53)
  have flb: "\<bar>fl\<bar> \<le> 2 ^ 53 - 1" "- 1 \<le> fl" by (simp_all add: fl_def floor_sentinel_def)
  have mn: "(if zeroBased then - 1 else 0) = fl" by (simp add: fl_def floor_sentinel_def)
  have cmp: "Number_minus m perPage < fl \<longleftrightarrow> m - perPage < fl"
    unfolding Number_minus_def using flb(1) by (rule to_double_less_iff)
  have w: "descPagination total_arg page perPage zeroBased
           = \<lparr> maxId = m,
               minId = (if m - perPage < fl then fl else Number_minus m perPage),
               hasPrev = (m < eff),
               hasNext = ((if m - perPage < fl then fl else Number_minus m perPage) > fl) \<rparr>"
    unfolding descPagination_def Let_def t p pr mx mn cmp by simp
  show ?thesis
  proof (cases "m - perPage < fl")
    case True
    then show ?thesis
      using effb assms(3) by (auto simp add: w m_def prod_def [symmetric] fl_def [symmetric])
  next
    case False
    then have "\<bar>m - perPage\<bar> \<le> 2 ^ 53 - 1"
      using flb(2) effb prod0 assms(3) by (simp add: m_def)
    then have "Number_minus m perPage = m - perPage"
      by (simp add: Number_minus_def to_double_exact)
    then show ?thesis
      using False effb assms(3) prod0
      by (auto simp add: w m_def prod_def [symmetric] fl_def [symmetric])
  qed
qed

theorem descPagination_maxId_ge_minId_iff_witness:
  "(0::int) \<le> 25 \<and> (1::int) \<le> 3 \<and> (1::int) \<le> 10
     \<and> isSafeInteger 25 \<and> isSafeInteger 10 \<and> isSafeInteger ((3 - 1) * 10)
     \<and> ((maxId (descPagination 25 3 10 True) \<ge> minId (descPagination 25 3 10 True))
          \<longleftrightarrow> (3 - 1) * 10 \<le> (25::int))
     \<and> maxId (descPagination 25 3 10 True) = 4
     \<and> minId (descPagination 25 3 10 True) = - 1"
  using descPagination_maxId_ge_minId_iff [of 25 3 10 True]
  by (simp add: isSafeInteger_def descPagination_def Let_def Number_minus_def
        Number_times_def to_double_exact)

text \<open>
  Without the bound the equivalence is lost: with \<open>total = 2\<^sup>5\<^sup>3 + 2\<close>,
  \<open>page = 2\<^sup>5\<^sup>2 + 2\<close>, \<open>perPage = 2\<close>, zero-based, \<open>(page - 1) * perPage\<close> equals \<open>total\<close>, yet
  \<^verbatim>\<open>total - 1\<close> rounds down and \<open>maxId = -2\<close> lies below \<open>minId = -1\<close>.
\<close>

lemma descPagination_beyond_safe_integers:
  "maxId (descPagination 9007199254740994 4503599627370498 2 True) = - 2
   \<and> minId (descPagination 9007199254740994 4503599627370498 2 True) = - 1"
  by (simp add: descPagination_def Let_def Number_minus_def Number_times_def to_double_def
        round_magnitude_def ulp_exponent.simps)

text \<open>
  C6. For \<open>total \<ge> 0\<close>, \<open>page \<ge> 1\<close>, \<open>perPage \<ge> 1\<close> and both values of \<open>zeroBased\<close>,
  \<open>hasNext\<close> is false exactly when \<open>minId\<close> equals the sentinel floor.
\<close>

theorem descPagination_hasNext_false_iff:
  assumes "0 \<le> total_arg" and "1 \<le> page" and "1 \<le> perPage"
  shows "(hasNext (descPagination total_arg page perPage zeroBased) = False)
         \<longleftrightarrow> minId (descPagination total_arg page perPage zeroBased) = floor_sentinel zeroBased"
  by (auto simp add: descPagination_def floor_sentinel_def Let_def)

theorem descPagination_hasNext_false_iff_witness:
  "(0::int) \<le> 25 \<and> (1::int) \<le> 3 \<and> (1::int) \<le> 10
     \<and> ((hasNext (descPagination 25 3 10 True) = False)
          \<longleftrightarrow> minId (descPagination 25 3 10 True) = floor_sentinel True)
     \<and> hasNext (descPagination 25 3 10 True) = False"
  using descPagination_hasNext_false_iff [of 25 3 10 True]
  by (simp add: descPagination_def floor_sentinel_def Let_def Number_minus_def
        Number_times_def to_double_exact)

text \<open>
  C7, as stated: for every \<open>total\<close>, \<open>perPage\<close>, \<open>zeroBased\<close> and every \<open>page \<ge> 1\<close>, the
  next page's \<open>maxId\<close> is the current page's \<open>maxId\<close> minus \<open>perPage\<close>. This fails where
  a \<open>maxId\<close> is rounded: for \<open>total = 2\<^sup>5\<^sup>3 + 2\<close>, \<open>perPage = 1\<close>, one-based, page 2 has
  \<open>maxId = 2\<^sup>5\<^sup>3\<close> (the exact \<open>2\<^sup>5\<^sup>3 + 1\<close> is not a double) and page 3 has \<open>maxId = 2\<^sup>5\<^sup>3\<close>
  too.
\<close>

theorem descPagination_maxId_next_page_counterexample:
  "(1::int) \<le> 2
   \<and> maxId (descPagination 9007199254740994 (2 + 1) 1 False) = 9007199254740992
   \<and> maxId (descPagination 9007199254740994 2 1 False) = 9007199254740992
   \<and> maxId (descPagination 9007199254740994 (2 + 1) 1 False)
       \<noteq> maxId (descPagination 9007199254740994 2 1 False) - 1"
  by (simp add: descPagination_def Let_def Number_minus_def Number_times_def to_double_def
        round_magnitude_def ulp_exponent.simps)

text \<open>
  C7, amended: for every \<open>total\<close>, \<open>perPage\<close>, \<open>zeroBased\<close> and every \<open>page \<ge> 1\<close> for
  which the values computed on the way to the two \<open>maxId\<close> (\<open>effectiveTotal\<close>, \<open>page\<close>,
  \<open>(page - 1) * perPage\<close>, \<open>page * perPage\<close> and the two differences) are safe integers,
  the next page's \<open>maxId\<close> is the current page's \<open>maxId\<close> minus \<open>perPage\<close>.
\<close>

theorem descPagination_maxId_next_page:
  assumes "1 \<le> page"
    and "isSafeInteger (effectiveTotal total_arg zeroBased)"
    and "isSafeInteger page"
    and "isSafeInteger ((page - 1) * perPage)"
    and "isSafeInteger (page * perPage)"
    and "isSafeInteger (effectiveTotal total_arg zeroBased - (page - 1) * perPage)"
    and "isSafeInteger (effectiveTotal total_arg zeroBased - page * perPage)"
  shows "maxId (descPagination total_arg (page + 1) perPage zeroBased)
         = maxId (descPagination total_arg page perPage zeroBased) - perPage"
proof -
  have p1: "isSafeInteger (page - 1)" using assms(1,3) by (simp add: isSafeInteger_def)
  have p2: "isSafeInteger (page + 1 - 1)" using assms(3) by simp
  have m2: "isSafeInteger ((page + 1 - 1) * perPage)" using assms(5) by simp
  have x2: "isSafeInteger (effectiveTotal total_arg zeroBased - (page + 1 - 1) * perPage)"
    using assms(7) by simp
  have "maxId (descPagination total_arg (page + 1) perPage zeroBased)
        = effectiveTotal total_arg zeroBased - (page + 1 - 1) * perPage"
    using assms(2) p2 m2 x2 by (rule maxId_exact)
  moreover have "maxId (descPagination total_arg page perPage zeroBased)
        = effectiveTotal total_arg zeroBased - (page - 1) * perPage"
    using assms(2) p1 assms(4,6) by (rule maxId_exact)
  ultimately show ?thesis by (simp add: algebra_simps)
qed

theorem descPagination_maxId_next_page_witness:
  "(1::int) \<le> 1 \<and> isSafeInteger (effectiveTotal 25 True) \<and> isSafeInteger 1
     \<and> isSafeInteger ((1 - 1) * 10) \<and> isSafeInteger (1 * 10)
     \<and> isSafeInteger (effectiveTotal 25 True - (1 - 1) * 10)
     \<and> isSafeInteger (effectiveTotal 25 True - 1 * 10)
     \<and> maxId (descPagination 25 (1 + 1) 10 True) = maxId (descPagination 25 1 10 True) - 10
     \<and> maxId (descPagination 25 1 10 True) = 24"
  using descPagination_maxId_next_page [of 1 25 True 10]
  by (simp add: isSafeInteger_def effectiveTotal_def descPagination_def Let_def
        Number_minus_def Number_times_def to_double_exact)

text \<open>
  C9, as stated: for all integers the window has \<open>minId \<ge> floor\<close> and
  \<open>maxId - minId \<le> perPage\<close>. The second part fails where \<^verbatim>\<open>maxId - perPage\<close> is rounded:
  for \<open>total = 2\<^sup>5\<^sup>4 + 4\<close>, \<open>page = 1\<close>, \<open>perPage = 3\<close>, one-based, \<open>maxId\<close> is \<open>2\<^sup>5\<^sup>4 + 4\<close> and
  \<^verbatim>\<open>maxId - perPage\<close>, exactly \<open>2\<^sup>5\<^sup>4 + 1\<close>, rounds to \<open>2\<^sup>5\<^sup>4\<close>, four below \<open>maxId\<close>.
\<close>

theorem descPagination_minId_floor_span_counterexample:
  "maxId (descPagination 18014398509481988 1 3 False) = 18014398509481988
   \<and> minId (descPagination 18014398509481988 1 3 False) = 18014398509481984
   \<and> \<not> (maxId (descPagination 18014398509481988 1 3 False)
          - minId (descPagination 18014398509481988 1 3 False) \<le> 3)"
  by (simp add: descPagination_def Let_def Number_minus_def Number_times_def to_double_def
        round_magnitude_def ulp_exponent.simps)

text \<open>
  C9, amended: for all integers \<open>total\<close>, \<open>page\<close>, \<open>perPage\<close> and both values of
  \<open>zeroBased\<close> the window has \<open>minId \<ge> floor\<close>; and it has \<open>maxId - minId \<le> perPage\<close>
  whenever \<open>maxId - perPage\<close> is a safe integer.
\<close>

theorem descPagination_minId_floor_span:
  "minId (descPagination total_arg page perPage zeroBased) \<ge> floor_sentinel zeroBased
   \<and> (isSafeInteger (maxId (descPagination total_arg page perPage zeroBased) - perPage)
        \<longrightarrow> maxId (descPagination total_arg page perPage zeroBased)
              - minId (descPagination total_arg page perPage zeroBased) \<le> perPage)"
proof -
  define m where "m = maxId (descPagination total_arg page perPage zeroBased)"
  have mi: "minId (descPagination total_arg page perPage zeroBased)
            = (if Number_minus m perPage < floor_sentinel zeroBased
               then floor_sentinel zeroBased else Number_minus m perPage)"
    by (simp add: m_def descPagination_def Let_def floor_sentinel_def)
  have "isSafeInteger (m - perPage) \<longrightarrow> Number_minus m perPage = m - perPage"
    by (simp add: Number_exact)
  then show ?thesis
    unfolding m_def [symmetric] mi by auto
qed

theorem descPagination_minId_floor_span_witness:
  "minId (descPagination 25 3 10 True) \<ge> floor_sentinel True
   \<and> isSafeInteger (maxId (descPagination 25 3 10 True) - 10)
   \<and> maxId (descPagination 25 3 10 True) - minId (descPagination 25 3 10 True) \<le> 10
   \<and> maxId (descPagination 25 3 10 True) = 4
   \<and> minId (descPagination 25 3 10 True) = - 1"
  using descPagination_minId_floor_span [of True 25 3 10]
  by (simp add: isSafeInteger_def floor_sentinel_def descPagination_def Let_def
        Number_minus_def Number_times_def to_double_exact)

text \<open>
  C10. For every \<open>perPage \<ge> 1\<close>, the first page of an empty zero-based collection is
  the window \<open>maxId = -1\<close>, \<open>minId = -1\<close> with both navigation flags false.
\<close>

theorem descPagination_empty_collection:
  assumes "1 \<le> perPage"
  shows "descPagination 0 1 perPage True
         = \<lparr> maxId = - 1, minId = - 1, hasPrev = False, hasNext = False \<rparr>"
proof -
  have "to_double (- 1 - perPage) < - 1 \<longleftrightarrow> - 1 - perPage < - 1"
    by (rule to_double_less_iff) simp
  then have "to_double (- 1 - perPage) < - 1" using assms by simp
  then show ?thesis
    by (simp add: descPagination_def Let_def Number_minus_def Number_times_def to_double_exact)
qed

theorem descPagination_empty_collection_witness:
  "(1::int) \<le> 10
     \<and> descPagination 0 1 10 True
         = \<lparr> maxId = - 1, minId = - 1, hasPrev = False, hasNext = False \<rparr>"
  using descPagination_empty_collection [of 10] by simp


section \<open>Properties of the error classifier\<close>

subsection \<open>Substring search and the table\<close>

text \<open>\<^verbatim>\<open>s.includes(p)\<close> holds exactly when \<open>p\<close> occurs somewhere inside \<open>s\<close>.\<close>

lemma String_includes_occurs_in: "String_includes s p \<longleftrightarrow> occurs_in p s"
proof -
  have "String_includes s p \<longleftrightarrow> sublist p s"
    by (induction s) (simp_all add: sublist_Cons_right)
  then show ?thesis by (simp add: occurs_in_def sublist_def)
qed

text \<open>The table of the code is the table of the specification, row by row.\<close>

lemma ERRORS_signature_table:
  "map (\<lambda>(k, r). (k, displayError r, log r, message r)) ERRORS = signature_table"
  by (simp add: ERRORS_def signature_table_def)

lemma Object_keys_signature_table: "Object_keys ERRORS = map fst signature_table"
  by (simp add: ERRORS_def signature_table_def Object_keys_def)

lemma length_signature_table: "length signature_table = length ERRORS"
  by (simp add: ERRORS_def signature_table_def)

lemma distinct_keys: "distinct (map fst ERRORS)"
  by (simp add: ERRORS_def)

lemma ERRORS_all:
  "list_all (\<lambda>(k, r). k \<noteq> [] \<and> log r = False \<and> message r \<noteq> []) ERRORS"
  by (simp add: ERRORS_def)

lemma ERRORS_entry:
  assumes "(k, r) \<in> set ERRORS"
  shows "k \<noteq> [] \<and> log r = False \<and> message r \<noteq> []
         \<and> (k, displayError r, log r, message r) \<in> set signature_table"
proof -
  have "(\<lambda>(k, r). (k, displayError r, log r, message r)) (k, r)
          \<in> set (map (\<lambda>(k, r). (k, displayError r, log r, message r)) ERRORS)"
    unfolding set_map using assms by (rule imageI)
  then have "(k, displayError r, log r, message r) \<in> set signature_table"
    by (simp only: ERRORS_signature_table prod.case)
  moreover have "k \<noteq> [] \<and> log r = False \<and> message r \<noteq> []"
    using assms ERRORS_all by (auto simp only: list_all_iff)
  ultimately show ?thesis by simp
qed

lemma signature_table_nth:
  assumes "i < length signature_table"
  shows "signature_table ! i
         = (fst (ERRORS ! i), displayError (snd (ERRORS ! i)), log (snd (ERRORS ! i)),
            message (snd (ERRORS ! i)))"
proof -
  have "i < length ERRORS" using assms by (simp add: length_signature_table)
  then have "map (\<lambda>(k, r). (k, displayError r, log r, message r)) ERRORS ! i
             = (\<lambda>(k, r). (k, displayError r, log r, message r)) (ERRORS ! i)"
    by (rule nth_map)
  then show ?thesis by (simp add: ERRORS_signature_table case_prod_beta)
qed

subsection \<open>What the constructor builds\<close>

text \<open>Every branch of the first statement leaves an \<^verbatim>\<open>Error\<close> in \<^verbatim>\<open>this.error\<close>.\<close>

lemma this_error_is_Error:
  assumes "this_error v = Inr e"
  shows "\<exists>m. e = JError m"
  using assms
  by (cases v)
     (auto simp add: this_error_def new_Error_def
           split: if_splits sum.splits option.splits js_value.splits)

text \<open>
  The constructor returns exactly when the first statement does, and then \<^verbatim>\<open>this._error\<close>
  is a function of the normalized message.
\<close>

lemma toErrorHandler_Inr_iff:
  "toErrorHandler v = Inr h \<longleftrightarrow>
     (\<exists>msg. normalized_message v = Some msg
        \<and> h = \<lparr> error = JError msg,
                 error' = select_error
                            (find (\<lambda>err. String_includes msg err) (Object_keys ERRORS)) \<rparr>)"
proof (cases "this_error v")
  case (Inl e)
  then show ?thesis
    by (simp add: toErrorHandler_def ErrorHandler_constructor_def normalized_message_def)
next
  case (Inr e)
  then obtain m where "e = JError m" using this_error_is_Error by blast
  with Inr show ?thesis
    by (auto simp add: toErrorHandler_def ErrorHandler_constructor_def normalized_message_def
          find_key_def)
qed

lemma find_first_match:
  assumes "i < length xs" and "P (xs ! i)" and "\<forall>j<i. \<not> P (xs ! j)"
  shows "find P xs = Some (xs ! i)"
  using assms by (auto simp add: find_Some_iff)

text \<open>The entry stored for a message: the first one whose key the message includes.\<close>

lemma select_error_first_match:
  assumes "i < length ERRORS"
    and "String_includes msg (fst (ERRORS ! i))"
    and "\<forall>j<i. \<not> String_includes msg (fst (ERRORS ! j))"
  shows "select_error (find (\<lambda>err. String_includes msg err) (Object_keys ERRORS))
         = Some (snd (ERRORS ! i))"
proof -
  let ?keys = "Object_keys ERRORS"
  have len: "i < length ?keys" using assms(1) by (simp add: Object_keys_def)
  have key: "?keys ! i = fst (ERRORS ! i)" using assms(1) by (simp add: Object_keys_def)
  have before: "\<forall>j<i. \<not> String_includes msg (?keys ! j)"
    using assms(1,3) by (simp add: Object_keys_def)
  have "find (\<lambda>err. String_includes msg err) ?keys = Some (?keys ! i)"
    using len before assms(2) key by (intro find_first_match) simp_all
  moreover have mem: "(fst (ERRORS ! i), snd (ERRORS ! i)) \<in> set ERRORS"
    using assms(1) by simp
  moreover have "fst (ERRORS ! i) \<noteq> []" using ERRORS_entry [OF mem] by simp
  moreover have "map_of ERRORS (fst (ERRORS ! i)) = Some (snd (ERRORS ! i))"
    using mem distinct_keys by simp
  ultimately show ?thesis by (simp add: key select_error_def)
qed

lemma select_error_None_iff:
  "select_error (find (\<lambda>err. String_includes msg err) (Object_keys ERRORS)) = None
   \<longleftrightarrow> (\<forall>p\<in>set (Object_keys ERRORS). \<not> String_includes msg p)"
proof (cases "find (\<lambda>err. String_includes msg err) (Object_keys ERRORS)")
  case None
  then have "\<forall>p\<in>set (Object_keys ERRORS). \<not> String_includes msg p"
    by (simp add: find_None_iff)
  with None show ?thesis by (simp add: select_error_def)
next
  case (Some k)
  then have k: "k \<in> set (Object_keys ERRORS)" "String_includes msg k"
    by (auto simp add: find_Some_iff)
  then obtain r where r: "(k, r) \<in> set ERRORS" by (auto simp add: Object_keys_def)
  then have "map_of ERRORS k = Some r" using distinct_keys by simp
  moreover have "k \<noteq> []" using ERRORS_entry [OF r] by simp
  ultimately show ?thesis using Some k by (auto simp add: select_error_def)
qed

lemma select_error_Some:
  assumes "select_error (find P (Object_keys ERRORS)) = Some r"
  shows "\<exists>k. (k, r) \<in> set ERRORS \<and> P k"
proof (cases "find P (Object_keys ERRORS)")
  case None
  with assms show ?thesis by (simp add: select_error_def)
next
  case (Some k)
  then have "P k" by (auto simp add: find_Some_iff)
  moreover have "map_of ERRORS k = Some r"
    using assms Some by (simp add: select_error_def split: if_splits)
  then have "(k, r) \<in> set ERRORS" by (rule map_of_SomeD)
  ultimately show ?thesis by blast
qed

lemma triple_stored:
  "triple \<lparr> error = e, error' = Some r \<rparr> = (displayError r, log r, message r)"
  "triple \<lparr> error = e, error' = None \<rparr> = default_record"
  by (simp_all add: triple_def get_displayError_def get_log_def get_message_def
        default_record_def)

lemma get_log_stored:
  "get_log \<lparr> error = e, error' = s \<rparr> \<longleftrightarrow> (case s of None \<Rightarrow> True | Some r \<Rightarrow> log r)"
  by (simp add: get_log_def split: option.splits)

text \<open>The handler built for a message whose first matching row is row \<open>i\<close>.\<close>

lemma toErrorHandler_at_first_match:
  assumes "normalized_message v = Some msg"
    and "i < length signature_table"
    and "occurs_in (fst (signature_table ! i)) msg"
    and "\<forall>j<i. \<not> occurs_in (fst (signature_table ! j)) msg"
  shows "\<exists>h. toErrorHandler v = Inr h \<and> triple h = snd (signature_table ! i)"
proof -
  have i: "i < length ERRORS" using assms(2) by (simp add: length_signature_table)
  have hit: "String_includes msg (fst (ERRORS ! i))"
    using assms(2,3) by (simp add: signature_table_nth String_includes_occurs_in)
  have miss: "\<forall>j<i. \<not> String_includes msg (fst (ERRORS ! j))"
  proof (intro allI impI)
    fix j assume "j < i"
    then have "j < length signature_table" and "\<not> occurs_in (fst (signature_table ! j)) msg"
      using assms(2,4) by simp_all
    then show "\<not> String_includes msg (fst (ERRORS ! j))"
      by (simp add: signature_table_nth String_includes_occurs_in)
  qed
  let ?h = "\<lparr> error = JError msg, error' = Some (snd (ERRORS ! i)) \<rparr>"
  have "toErrorHandler v = Inr ?h"
    using assms(1) select_error_first_match [OF i hit miss] by (simp add: toErrorHandler_Inr_iff)
  moreover have "triple ?h = snd (signature_table ! i)"
    using assms(2) by (simp add: triple_stored signature_table_nth)
  ultimately show ?thesis by blast
qed

subsection \<open>The record a message is classified to\<close>

text \<open>
  C2. For every input whose normalized message contains at least one of the six patterns
  of the signature table, \<open>toErrorHandler\<close> yields the \<open>(displayError, log, message)\<close>
  triple of the first entry, in declared order, whose pattern occurs as a substring of the
  normalized message; and the table of the code carries exactly the six patterns and
  triples of the specification's table, in its order.
\<close>

theorem toErrorHandler_first_match:
  assumes "normalized_message v = Some msg"
    and "\<exists>p\<in>set (map fst signature_table). occurs_in p msg"
  shows "(\<exists>h i. toErrorHandler v = Inr h
              \<and> i < length signature_table
              \<and> occurs_in (fst (signature_table ! i)) msg
              \<and> (\<forall>j<i. \<not> occurs_in (fst (signature_table ! j)) msg)
              \<and> triple h = snd (signature_table ! i))
         \<and> map (\<lambda>(k, r). (k, displayError r, log r, message r)) ERRORS = signature_table"
proof -
  let ?match = "\<lambda>i. i < length signature_table \<and> occurs_in (fst (signature_table ! i)) msg"
  from assms(2) obtain p where "p \<in> set (map fst signature_table)" and p: "occurs_in p msg"
    by blast
  then obtain k where "k < length (map fst signature_table)"
    and "map fst signature_table ! k = p"
    by (auto simp only: in_set_conv_nth)
  with p have "?match k" by simp
  define i where "i = (LEAST i. ?match i)"
  have first: "?match i" unfolding i_def using \<open>?match k\<close> by (rule LeastI)
  have before: "\<forall>j<i. \<not> occurs_in (fst (signature_table ! j)) msg"
  proof (intro allI impI)
    fix j assume "j < i"
    then have "\<not> ?match j" unfolding i_def by (rule not_less_Least)
    moreover have "j < length signature_table" using \<open>j < i\<close> first by simp
    ultimately show "\<not> occurs_in (fst (signature_table ! j)) msg" by simp
  qed
  from toErrorHandler_at_first_match [OF assms(1) _ _ before] first
  obtain h where "toErrorHandler v = Inr h" and "triple h = snd (signature_table ! i)"
    by blast
  with first before show ?thesis using ERRORS_signature_table by blast
qed

theorem toErrorHandler_first_match_witness:
  "normalized_message (JError ''User denied transaction signature by account'')
     = Some ''User denied transaction signature by account''
   \<and> (\<exists>p\<in>set (map fst signature_table).
          occurs_in p ''User denied transaction signature by account'')
   \<and> \<not> (\<exists>j<3. occurs_in (fst (signature_table ! j))
                  ''User denied transaction signature by account'')
   \<and> occurs_in (fst (signature_table ! 3)) ''User denied transaction signature by account''
   \<and> (\<exists>h. toErrorHandler (JError ''User denied transaction signature by account'') = Inr h
          \<and> triple h
              = (False, False, ''MetaMask Tx Signature: User denied transaction signature.''))"
proof -
  let ?msg = "''User denied transaction signature by account''"
  have n: "normalized_message (JError ?msg) = Some ?msg"
    by (simp add: normalized_message_def this_error_def)
  have l: "3 < length signature_table" by (simp add: signature_table_def)
  have r: "signature_table ! 3
           = (''User denied transaction signature'', False, False,
              ''MetaMask Tx Signature: User denied transaction signature.'')"
    by (simp add: signature_table_def)
  have hit: "occurs_in (fst (signature_table ! 3)) ?msg"
    unfolding r String_includes_occurs_in [symmetric] by simp
  have miss: "\<forall>j<3. \<not> occurs_in (fst (signature_table ! j)) ?msg"
  proof (intro allI impI)
    fix j :: nat assume "j < 3"
    then consider "j = 0" | "j = 1" | "j = 2" by linarith
    then show "\<not> occurs_in (fst (signature_table ! j)) ?msg"
      unfolding String_includes_occurs_in [symmetric]
      by cases (simp_all add: signature_table_def)
  qed
  have some: "\<exists>p\<in>set (map fst signature_table). occurs_in p ?msg"
    using hit l by (auto simp only: set_map intro: nth_mem)
  from toErrorHandler_first_match [OF n some] obtain h i
    where h: "toErrorHandler (JError ?msg) = Inr h"
      and i: "i < length signature_table" "occurs_in (fst (signature_table ! i)) ?msg"
        "\<forall>j<i. \<not> occurs_in (fst (signature_table ! j)) ?msg"
      and t: "triple h = snd (signature_table ! i)"
    by blast
  have "\<not> i < 3" using i(2) miss by blast
  moreover have "\<not> 3 < i" using i(3) hit by blast
  ultimately have "i = 3" by simp
  with t have "triple h
      = (False, False, ''MetaMask Tx Signature: User denied transaction signature.'')"
    by (simp add: r)
  with h have "\<exists>h. toErrorHandler (JError ?msg) = Inr h \<and> triple h
      = (False, False, ''MetaMask Tx Signature: User denied transaction signature.'')"
    by blast
  moreover have "\<not> (\<exists>j<3. occurs_in (fst (signature_table ! j)) ?msg)"
    using miss by blast
  ultimately show ?thesis using n some hit by blast
qed

text \<open>
  C3 says that the constructor returns a well-formed record on every input, \<^verbatim>\<open>null\<close>
  included. At \<^verbatim>\<open>null\<close> it does not: \<^verbatim>\<open>typeof null\<close> is \<^verbatim>\<open>'object'\<close>, so the second test
  of the constructor reads \<^verbatim>\<open>null.message\<close>, which raises a \<^verbatim>\<open>TypeError\<close>, and no
  handler is built.
\<close>

theorem toErrorHandler_null_throws: "toErrorHandler JNull = Inl TypeError"
  by (simp add: toErrorHandler_def ErrorHandler_constructor_def this_error_def)

text \<open>
  On the three shapes its callers document (an \<^verbatim>\<open>Error\<close>, an object carrying a string
  \<^verbatim>\<open>message\<close>, a string) and on \<^verbatim>\<open>undefined\<close> the constructor does return.
\<close>

lemma toErrorHandler_returns:
  "\<exists>h. toErrorHandler (JError m) = Inr h"
  "\<exists>h. toErrorHandler (JObject (Some (JString m))) = Inr h"
  "\<exists>h. toErrorHandler (JString m) = Inr h"
  "\<exists>h. toErrorHandler JUndefined = Inr h"
  by (simp_all add: toErrorHandler_Inr_iff normalized_message_def this_error_def new_Error_def)

text \<open>
  On every input on which the constructor returns, the result is the default record
  \<open>(True, True, ''Something went wrong.'')\<close> when the message of \<^verbatim>\<open>this.error\<close> contains
  none of the six patterns, and the \<open>log\<close> flag is true exactly when no pattern of the
  table is a substring of that message, every entry of the table having \<open>log = False\<close>.
\<close>

theorem toErrorHandler_default:
  assumes "normalized_message v = Some msg"
  shows "\<exists>h. toErrorHandler v = Inr h
           \<and> ((\<forall>p\<in>set (map fst signature_table). \<not> occurs_in p msg)
                 \<longrightarrow> triple h = default_record)
           \<and> (get_log h \<longleftrightarrow> (\<forall>p\<in>set (map fst signature_table). \<not> occurs_in p msg))
           \<and> (\<forall>(p, d, l, m)\<in>set signature_table. l = False)"
proof -
  let ?stored = "select_error (find (\<lambda>err. String_includes msg err) (Object_keys ERRORS))"
  let ?h = "\<lparr> error = JError msg, error' = ?stored \<rparr>"
  let ?none = "\<forall>p\<in>set (map fst signature_table). \<not> occurs_in p msg"
  have h: "toErrorHandler v = Inr ?h"
    using assms by (simp add: toErrorHandler_Inr_iff)
  have none: "?stored = None \<longleftrightarrow> ?none"
    unfolding select_error_None_iff
    by (simp only: Object_keys_signature_table String_includes_occurs_in)
  have dflt: "?none \<longrightarrow> triple ?h = default_record"
  proof
    assume ?none
    with none have "?stored = None" by (rule iffD2)
    then show "triple ?h = default_record" by (simp only: triple_stored)
  qed
  have lg: "get_log ?h \<longleftrightarrow> ?none"
  proof (cases ?stored)
    case None
    then show ?thesis using none by (simp add: get_log_stored)
  next
    case (Some r)
    then obtain k where "(k, r) \<in> set ERRORS" using select_error_Some by blast
    then have "log r = False" using ERRORS_entry by blast
    then show ?thesis using Some none by (simp add: get_log_stored)
  qed
  have tbl: "\<forall>(p, d, l, m)\<in>set signature_table. l = False"
    by (simp add: signature_table_def)
  show ?thesis using h dflt lg tbl by blast
qed

theorem toErrorHandler_default_witness:
  "normalized_message (JObject (Some (JString ''timeout''))) = Some ''timeout''
   \<and> \<not> (\<exists>p\<in>set (map fst signature_table). occurs_in p ''timeout'')
   \<and> (\<exists>h. toErrorHandler (JObject (Some (JString ''timeout''))) = Inr h
          \<and> triple h = (True, True, ''Something went wrong.'')
          \<and> get_log h)"
proof -
  have n: "normalized_message (JObject (Some (JString ''timeout''))) = Some ''timeout''"
    by (simp add: normalized_message_def this_error_def new_Error_def)
  have none: "\<forall>p\<in>set (map fst signature_table). \<not> occurs_in p ''timeout''"
    unfolding String_includes_occurs_in [symmetric] by (simp add: signature_table_def)
  have none': "\<not> (\<exists>p\<in>set (map fst signature_table). occurs_in p ''timeout'')"
    using none by blast
  from toErrorHandler_default [OF n] none obtain h
    where "toErrorHandler (JObject (Some (JString ''timeout''))) = Inr h"
      and "triple h = default_record" and "get_log h"
    by blast
  then have "\<exists>h. toErrorHandler (JObject (Some (JString ''timeout''))) = Inr h
          \<and> triple h = (True, True, ''Something went wrong.'') \<and> get_log h"
    by (auto simp add: default_record_def)
  with n none' show ?thesis by blast
qed

text \<open>
  C5 says that every input whose normalized message contains none of the six patterns is
  classified to the default record, with \<open>log\<close> true. The specification normalizes
  \<^verbatim>\<open>null\<close> to its textual representation \<^verbatim>\<open>'null'\<close>, which contains none of the patterns.
  The constructor has no record for it at all: it throws on \<^verbatim>\<open>null.message\<close> before the
  table is read.
\<close>

theorem toErrorHandler_null_no_default_record:
  "\<not> (\<exists>p\<in>set (map fst signature_table). occurs_in p ''null'')
   \<and> \<not> (\<exists>h. toErrorHandler JNull = Inr h \<and> triple h = default_record \<and> get_log h)"
proof -
  have "\<forall>p\<in>set (map fst signature_table). \<not> occurs_in p ''null''"
    unfolding String_includes_occurs_in [symmetric] by (simp add: signature_table_def)
  then have "\<not> (\<exists>p\<in>set (map fst signature_table). occurs_in p ''null'')" by blast
  moreover have "toErrorHandler JNull = Inl TypeError"
    by (simp add: toErrorHandler_def ErrorHandler_constructor_def this_error_def)
  then have "\<not> (\<exists>h. toErrorHandler JNull = Inr h \<and> triple h = default_record \<and> get_log h)"
    by simp
  ultimately show ?thesis by (rule conjI)
qed

text \<open>
  C8. Whenever \<open>toErrorHandler\<close> returns, the \<open>(displayError, log, message)\<close> triple of the
  result is one of seven distinct constants, the default record or one of the six
  templates of the table; its message is not empty; and a result other than the default
  record has \<open>log = False\<close>.
\<close>

theorem toErrorHandler_seven_records:
  assumes "toErrorHandler v = Inr h"
  shows "triple h \<in> set (default_record # map snd signature_table)
         \<and> get_message h \<noteq> []
         \<and> (triple h \<noteq> default_record \<longrightarrow> get_log h = False)
         \<and> distinct (default_record # map snd signature_table)
         \<and> length (default_record # map snd signature_table) = 7"
proof -
  from assms [unfolded toErrorHandler_Inr_iff] obtain msg
    where h: "h = \<lparr> error = JError msg,
                     error' = select_error (find (\<lambda>err. String_includes msg err)
                                (Object_keys ERRORS)) \<rparr>"
    by (elim exE conjE)
  define s where "s = select_error (find (\<lambda>err. String_includes msg err) (Object_keys ERRORS))"
  have h': "h = \<lparr> error = JError msg, error' = s \<rparr>" using h by (simp only: s_def)
  have seven: "distinct (default_record # map snd signature_table)
               \<and> length (default_record # map snd signature_table) = 7"
    by (simp add: default_record_def signature_table_def)
  have "triple h \<in> set (default_record # map snd signature_table)
         \<and> get_message h \<noteq> []
         \<and> (triple h \<noteq> default_record \<longrightarrow> get_log h = False)"
  proof (cases s)
    case None
    then show ?thesis
      by (simp add: h' triple_stored get_message_def)
  next
    case (Some r)
    then obtain k where "(k, r) \<in> set ERRORS"
      using select_error_Some [of "\<lambda>err. String_includes msg err" r] by (auto simp only: s_def)
    then have e: "log r = False" "message r \<noteq> []"
      "(k, displayError r, log r, message r) \<in> set signature_table"
      using ERRORS_entry by blast+
    from e(3) have "snd (k, displayError r, log r, message r) \<in> snd ` set signature_table"
      by (rule imageI)
    then have "triple h \<in> set (map snd signature_table)"
      by (simp add: h' Some triple_stored)
    then show ?thesis using e(1,2)
      by (simp add: h' Some get_message_def get_log_stored)
  qed
  with seven show ?thesis by blast
qed

theorem toErrorHandler_seven_records_witness:
  "toErrorHandler (JString ''revert Loketh: Participant already bought the ticket'')
     = Inr \<lparr> error = JError ''revert Loketh: Participant already bought the ticket'',
             error' = Some \<lparr> displayError = True, log = False,
                              message = ''You are already buy this ticket.'' \<rparr> \<rparr>
   \<and> triple \<lparr> error = JError ''revert Loketh: Participant already bought the ticket'',
              error' = Some \<lparr> displayError = True, log = False,
                               message = ''You are already buy this ticket.'' \<rparr> \<rparr>
       \<in> set (default_record # map snd signature_table)"
proof -
  have r: "toErrorHandler (JString ''revert Loketh: Participant already bought the ticket'')
     = Inr \<lparr> error = JError ''revert Loketh: Participant already bought the ticket'',
             error' = Some \<lparr> displayError = True, log = False,
                              message = ''You are already buy this ticket.'' \<rparr> \<rparr>"
    by (simp add: toErrorHandler_def ErrorHandler_constructor_def this_error_def new_Error_def
          find_key_def select_error_def Object_keys_def ERRORS_def)
  from toErrorHandler_seven_records [OF r] have
    "triple \<lparr> error = JError ''revert Loketh: Participant already bought the ticket'',
              error' = Some \<lparr> displayError = True, log = False,
                               message = ''You are already buy this ticket.'' \<rparr> \<rparr>
       \<in> set (default_record # map snd signature_table)"
    by (rule conjunct1)
  with r show ?thesis by (rule conjI)
qed

end
